theory Spec2Isabelle
  imports Complex_Main
begin

section \<open>The intelligence graph component (intelligence-graph.tsx)\<close>

text \<open>
  The component is a React function component. Its \<open>useState\<close> cells become the fields
  of one state record, every event handler becomes a function from the state before the
  event to the state after it, and the host's \<open>selectedNode\<close> cell (page.tsx, updated
  through \<open>onNodeSelect\<close>) is one more field. A JavaScript \<open>number\<close> is modelled as a
  \<open>real\<close>: arithmetic is exact, \<open>Math.cos\<close>, \<open>Math.sin\<close> and \<open>Math.sqrt\<close> are the
  real functions, and rounding, infinities and NaN are outside the model.
\<close>

subsection \<open>Data model\<close>

type_synonym attrs = "(string \<times> string) list"

text \<open>An \<open>{x, y}\<close> object literal.\<close>
type_synonym point = "real \<times> real"

text \<open>
  An element of \<open>ScanResult.graph_data.nodes\<close> and of \<open>ScanResult.graph_data.edges\<close>
  (lib/types.ts). Only the fields the component reads are kept. \<open>attributes\<close> and
  \<open>title\<close> are optional here because the component guards both with \<open>||\<close>.
\<close>
record NodeData =
  nd_id :: string
  nd_label :: string
  nd_type :: string
  nd_attributes :: "attrs option"

record EdgeData =
  ed_from :: string
  ed_to :: string
  ed_title :: "string option"

record GraphDataIn =
  gd_nodes :: "NodeData list"
  gd_edges :: "EdgeData list"

text \<open>\<open>ScanResult\<close>: the component reads \<open>graph_data\<close> only, and tests it for presence.\<close>
record ScanResult =
  graph_data :: "GraphDataIn option"

record GraphNode =
  n_id :: string
  n_label :: string
  n_type :: string
  n_x :: real
  n_y :: real
  n_details :: attrs

record GraphEdge =
  e_source :: string
  e_target :: string
  e_relationship :: string

record Graph =
  nodes :: "GraphNode list"
  edges :: "GraphEdge list"

subsection \<open>generateGraphData\<close>

text \<open>The object pushed for the node record at index \<open>i\<close> (lines 40-47).\<close>
definition mkNode :: "nat \<Rightarrow> NodeData \<Rightarrow> GraphNode" where
  "mkNode i nodeData =
     \<lparr> n_id = nd_id nodeData,
       n_label = nd_label nodeData,
       n_type = nd_type nodeData,
       n_x = 400 + cos (real i * 0.5) * 150,
       n_y = 300 + sin (real i * 0.5) * 150,
       n_details = (case nd_attributes nodeData of None \<Rightarrow> [] | Some a \<Rightarrow> a) \<rparr>"

text \<open>
  The object pushed for an edge record (lines 51-55). \<open>title || "connected"\<close>: a missing
  title and the empty string are both falsy.
\<close>
definition mkEdge :: "EdgeData \<Rightarrow> GraphEdge" where
  "mkEdge edgeData =
     \<lparr> e_source = ed_from edgeData,
       e_target = ed_to edgeData,
       e_relationship =
         (case ed_title edgeData of
            None \<Rightarrow> ''connected''
          | Some t \<Rightarrow> if t = [] then ''connected'' else t) \<rparr>"

text \<open>\<open>nodes.forEach((nodeData, i) => nodes.push(...))\<close>, from index \<open>i\<close> on.\<close>
fun pushNodes :: "nat \<Rightarrow> NodeData list \<Rightarrow> GraphNode list \<Rightarrow> GraphNode list" where
  "pushNodes i [] acc = acc"
| "pushNodes i (nodeData # rest) acc = pushNodes (Suc i) rest (acc @ [mkNode i nodeData])"

text \<open>\<open>edges.forEach((edgeData) => edges.push(...))\<close>.\<close>
fun pushEdges :: "EdgeData list \<Rightarrow> GraphEdge list \<Rightarrow> GraphEdge list" where
  "pushEdges [] acc = acc"
| "pushEdges (edgeData # rest) acc = pushEdges rest (acc @ [mkEdge edgeData])"

definition generateGraphData :: "ScanResult \<Rightarrow> Graph" where
  "generateGraphData data =
     (case graph_data data of
        None \<Rightarrow> \<lparr> nodes = [], edges = [] \<rparr>
      | Some g \<Rightarrow> \<lparr> nodes = pushNodes 0 (gd_nodes g) [], edges = pushEdges (gd_edges g) [] \<rparr>)"

subsection \<open>Component state\<close>

text \<open>
  \<open>new Map(graphData.nodes.map((n) => [n.id, {x: n.x, y: n.y}]))\<close>: the Map constructor
  sets the entries in list order, so a later entry replaces an earlier one with the same key.
\<close>
fun newMap :: "(string \<times> point) list \<Rightarrow> (string \<rightharpoonup> point) \<Rightarrow> (string \<rightharpoonup> point)" where
  "newMap [] m = m"
| "newMap ((k, v) # rest) m = newMap rest (m(k \<mapsto> v))"

record state =
  zoom :: real
  pan :: point
  isDragging :: bool
  dragStart :: point
  hoveredNode :: "GraphNode option"
  graphData :: Graph
  nodePositions :: "string \<rightharpoonup> point"
  draggingNode :: "string option"
  selectedNode :: "string option"

text \<open>
  The state after the first render of the component for \<open>data\<close>; \<open>sel\<close> is the host's
  \<open>selectedNode\<close> at that time (page.tsx starts it at \<open>null\<close>).
\<close>
definition init :: "ScanResult \<Rightarrow> string option \<Rightarrow> state" where
  "init data sel =
     \<lparr> zoom = 1,
       pan = (0, 0),
       isDragging = False,
       dragStart = (0, 0),
       hoveredNode = None,
       graphData = generateGraphData data,
       nodePositions =
         newMap (map (\<lambda>n. (n_id n, (n_x n, n_y n))) (nodes (generateGraphData data))) Map.empty,
       draggingNode = None,
       selectedNode = sel \<rparr>"

subsection \<open>Style tables\<close>

text \<open>The object literal \<open>nodeSizes\<close> of \<open>getNodeSize\<close> (lines 103-118).\<close>
definition nodeSizes :: "(string \<times> real) list" where
  "nodeSizes =
     [(''person'', 60), (''sensitive_data'', 40), (''repository'', 28), (''organization'', 28),
      (''email'', 25), (''platform'', 24), (''account'', 22), (''identity'', 20),
      (''location'', 18), (''website'', 18), (''domain'', 16), (''user'', 30),
      (''sensitive'', 22), (''default'', 20)]"

text \<open>
  \<open>nodeSizes[type]\<close> is a property read on an object literal, so a \<open>type\<close> that names a
  property of \<open>Object.prototype\<close> reads that inherited function or object instead of
  \<open>undefined\<close>; it is truthy, so \<open>||\<close> keeps it. As a number it is NaN.
\<close>
definition objectPrototypeKeys :: "string list" where
  "objectPrototypeKeys =
     [''constructor'', ''hasOwnProperty'', ''isPrototypeOf'', ''propertyIsEnumerable'',
      ''toLocaleString'', ''toString'', ''valueOf'', ''__proto__'', ''__defineGetter__'',
      ''__defineSetter__'', ''__lookupGetter__'', ''__lookupSetter__'']"

text \<open>
  \<open>nodeSizes[type] || nodeSizes['default']\<close>. \<open>None\<close> stands for the inherited
  non-number above: a comparison with it is false and an arc of that radius draws nothing.
\<close>
definition getNodeSize :: "string \<Rightarrow> real option" where
  "getNodeSize ty =
     (case map_of nodeSizes ty of
        Some n \<Rightarrow> if n = 0 then map_of nodeSizes ''default'' else Some n
      | None \<Rightarrow> if ty \<in> set objectPrototypeKeys then None else map_of nodeSizes ''default'')"

subsection \<open>Viewport transform of the renderer\<close>

text \<open>
  The current transformation matrix of a 2D context, for the two operations \<open>draw\<close> uses.
  A matrix \<open>[a 0 e; 0 d f]\<close> is kept as \<open>(a, d, e, f)\<close>; \<open>translate\<close> and \<open>scale\<close>
  multiply it from the right, as the canvas does.
\<close>
type_synonym matrix = "real \<times> real \<times> real \<times> real"

definition identityMatrix :: matrix where
  "identityMatrix = (1, 1, 0, 0)"

fun ctx_translate :: "real \<Rightarrow> real \<Rightarrow> matrix \<Rightarrow> matrix" where
  "ctx_translate tx ty (a, d, e, f) = (a, d, a * tx + e, d * ty + f)"

fun ctx_scale :: "real \<Rightarrow> real \<Rightarrow> matrix \<Rightarrow> matrix" where
  "ctx_scale sx sy (a, d, e, f) = (a * sx, d * sy, e, f)"

fun applyMatrix :: "matrix \<Rightarrow> point \<Rightarrow> point" where
  "applyMatrix (a, d, e, f) (px, py) = (a * px + e, d * py + f)"

text \<open>\<open>window.devicePixelRatio || 1\<close> (line 128).\<close>
definition dprOf :: "real \<Rightarrow> real" where
  "dprOf devicePixelRatio = (if devicePixelRatio = 0 then 1 else devicePixelRatio)"

text \<open>
  The matrix under which edges and nodes are drawn: setting \<open>canvas.width\<close> resets the
  context, then \<open>ctx.scale(dpr, dpr)\<close> (line 132), \<open>ctx.translate(pan.x, pan.y)\<close> and
  \<open>ctx.scale(zoom, zoom)\<close> (lines 136-137).
\<close>
definition drawMatrix :: "real \<Rightarrow> state \<Rightarrow> matrix" where
  "drawMatrix devicePixelRatio s =
     ctx_scale (zoom s) (zoom s)
       (ctx_translate (fst (pan s)) (snd (pan s))
          (ctx_scale (dprOf devicePixelRatio) (dprOf devicePixelRatio) identityMatrix))"

text \<open>The bounding client rectangle of the canvas: its top left corner in client coordinates.\<close>
record DOMRect =
  rect_left :: real
  rect_top :: real

text \<open>
  Where a world point drawn by \<open>draw\<close> appears, in client coordinates: the backing store
  has \<open>dpr\<close> pixels for each CSS pixel of the canvas (lines 130-131), and the canvas lies
  at \<open>rect\<close>.
\<close>
definition worldToScreen :: "DOMRect \<Rightarrow> real \<Rightarrow> state \<Rightarrow> point \<Rightarrow> point" where
  "worldToScreen rect devicePixelRatio s w =
     (rect_left rect + fst (applyMatrix (drawMatrix devicePixelRatio s) w) / dprOf devicePixelRatio,
      rect_top rect + snd (applyMatrix (drawMatrix devicePixelRatio s) w) / dprOf devicePixelRatio)"

text \<open>
  The world point under a pointer position, as \<open>getNodeAtPosition\<close> (lines 248-249) and
  \<open>handleMouseMove\<close> (lines 267-268) compute it. In JavaScript a division by zero gives
  an infinity or NaN, in HOL it gives 0: the two agree only when \<open>zoom\<close> is not 0.
\<close>
definition screenToWorld :: "DOMRect \<Rightarrow> state \<Rightarrow> real \<Rightarrow> real \<Rightarrow> point" where
  "screenToWorld rect s clientX clientY =
     ((clientX - rect_left rect - fst (pan s)) / zoom s,
      (clientY - rect_top rect - snd (pan s)) / zoom s)"

subsection \<open>Renderer\<close>

text \<open>
  What \<open>draw\<close> puts on the canvas, as the list of its path and text operations in the
  coordinates of the context. Colours, fonts, line widths and the label chip behind an edge
  label are left out.
\<close>
datatype draw_op =
    StrokeLine point point
  | FillText string point
  | FillArc point real

text \<open>The body of \<open>graphData.edges.forEach\<close> (lines 141-170).\<close>
definition drawEdge :: "state \<Rightarrow> GraphEdge \<Rightarrow> draw_op list" where
  "drawEdge s edge =
     (case nodePositions s (e_source edge) of
        None \<Rightarrow> []
      | Some sourcePos \<Rightarrow>
          (case nodePositions s (e_target edge) of
             None \<Rightarrow> []
           | Some targetPos \<Rightarrow>
               [StrokeLine sourcePos targetPos,
                FillText (if e_relationship edge = [] then ''connected'' else e_relationship edge)
                  ((fst sourcePos + fst targetPos) / 2, (snd sourcePos + snd targetPos) / 2)]))"

text \<open>\<open>node.label || node.id\<close>, cut to 15 characters and an ellipsis past 18 (lines 212-215).\<close>
definition nodeLabel :: "GraphNode \<Rightarrow> string" where
  "nodeLabel node =
     (let label = (if n_label node = [] then n_id node else n_label node)
      in if length label > 18 then take 15 label @ ''...'' else label)"

text \<open>
  The body of \<open>graphData.nodes.forEach\<close> (lines 175-227): the glow arc of a sensitive
  node, the node circle, the label under it and the warning glyph of a sensitive node
  (written \<open>!\<close> here).
\<close>
definition drawNode :: "state \<Rightarrow> GraphNode \<Rightarrow> draw_op list" where
  "drawNode s node =
     (case nodePositions s (n_id node) of
        None \<Rightarrow> []
      | Some pos \<Rightarrow>
          (case getNodeSize (n_type node) of
             None \<Rightarrow> []
           | Some sz \<Rightarrow>
               (if n_type node = ''sensitive_data'' \<or> n_type node = ''sensitive''
                then [FillArc pos (sz + 8)] else [])
               @ [FillArc pos sz, FillText (nodeLabel node) (fst pos, snd pos + sz + 5)]
               @ (if n_type node = ''sensitive_data'' \<or> n_type node = ''sensitive''
                  then [FillText ''!'' pos] else [])))"

text \<open>
  \<open>draw\<close>: nothing without a canvas (line 126), otherwise the edges, then the nodes.
\<close>
definition draw :: "DOMRect option \<Rightarrow> state \<Rightarrow> draw_op list" where
  "draw canvas s =
     (case canvas of
        None \<Rightarrow> []
      | Some rect \<Rightarrow>
          concat (map (drawEdge s) (edges (graphData s)))
          @ concat (map (drawNode s) (nodes (graphData s))))"

subsection \<open>Hit-testing\<close>

text \<open>The test of the loop body of \<open>getNodeAtPosition\<close> (lines 252-256) at world point \<open>p\<close>.\<close>
definition inNode :: "state \<Rightarrow> point \<Rightarrow> GraphNode \<Rightarrow> bool" where
  "inNode s p node =
     (case nodePositions s (n_id node) of
        None \<Rightarrow> False
      | Some pos \<Rightarrow>
          (case getNodeSize (n_type node) of
             None \<Rightarrow> False
           | Some sz \<Rightarrow> sqrt ((fst p - fst pos)\<^sup>2 + (snd p - snd pos)\<^sup>2) \<le> sz))"

text \<open>\<open>for (const node of graphData.nodes) { ... return node }\<close>, then \<open>return null\<close>.\<close>
fun firstNodeAt :: "state \<Rightarrow> point \<Rightarrow> GraphNode list \<Rightarrow> GraphNode option" where
  "firstNodeAt s p [] = None"
| "firstNodeAt s p (node # rest) = (if inNode s p node then Some node else firstNodeAt s p rest)"

definition getNodeAtPosition :: "DOMRect option \<Rightarrow> state \<Rightarrow> real \<Rightarrow> real \<Rightarrow> GraphNode option" where
  "getNodeAtPosition canvas s clientX clientY =
     (case canvas of
        None \<Rightarrow> None
      | Some rect \<Rightarrow> firstNodeAt s (screenToWorld rect s clientX clientY) (nodes (graphData s)))"

subsection \<open>Event handlers\<close>

text \<open>\<open>if (draggingNode)\<close> on a \<open>string | null\<close>: \<open>null\<close> and the empty string are falsy.\<close>
definition truthy :: "string option \<Rightarrow> bool" where
  "truthy v = (case v of None \<Rightarrow> False | Some str \<Rightarrow> str \<noteq> [])"

definition handleMouseMove :: "DOMRect option \<Rightarrow> state \<Rightarrow> real \<Rightarrow> real \<Rightarrow> state" where
  "handleMouseMove canvas s clientX clientY =
     (case canvas of
        None \<Rightarrow> s
      | Some rect \<Rightarrow>
          if truthy (draggingNode s) then
            s\<lparr> nodePositions :=
                 (nodePositions s)(the (draggingNode s) \<mapsto> screenToWorld rect s clientX clientY) \<rparr>
          else if isDragging s then
            s\<lparr> pan := (fst (pan s) + (clientX - fst (dragStart s)),
                        snd (pan s) + (clientY - snd (dragStart s))),
               dragStart := (clientX, clientY) \<rparr>
          else
            s\<lparr> hoveredNode := getNodeAtPosition canvas s clientX clientY \<rparr>)"

definition handleMouseDown :: "DOMRect option \<Rightarrow> state \<Rightarrow> real \<Rightarrow> real \<Rightarrow> state" where
  "handleMouseDown canvas s clientX clientY =
     (case getNodeAtPosition canvas s clientX clientY of
        Some node \<Rightarrow> s\<lparr> draggingNode := Some (n_id node) \<rparr>
      | None \<Rightarrow> s\<lparr> isDragging := True, dragStart := (clientX, clientY) \<rparr>)"

definition handleMouseUp :: "state \<Rightarrow> state" where
  "handleMouseUp s = s\<lparr> isDragging := False, draggingNode := None \<rparr>"

text \<open>The argument of \<open>onNodeSelect\<close> in \<open>handleClick\<close>: \<open>node?.id || null\<close>.\<close>
definition clickedId :: "GraphNode option \<Rightarrow> string option" where
  "clickedId node =
     (case node of
        None \<Rightarrow> None
      | Some n \<Rightarrow> if n_id n = [] then None else Some (n_id n))"

text \<open>\<open>onNodeSelect\<close> is the host's \<open>setSelectedNode\<close> (page.tsx, line 152).\<close>
definition handleClick :: "DOMRect option \<Rightarrow> state \<Rightarrow> real \<Rightarrow> real \<Rightarrow> state" where
  "handleClick canvas s clientX clientY =
     s\<lparr> selectedNode := clickedId (getNodeAtPosition canvas s clientX clientY) \<rparr>"

definition handleWheel :: "state \<Rightarrow> real \<Rightarrow> state" where
  "handleWheel s deltaY =
     (let delta = (if deltaY > 0 then 0.9 else 1.1)
      in s\<lparr> zoom := min (max (zoom s * delta) 0.5) 2 \<rparr>)"

text \<open>The three buttons of the header (lines 325-337) and the close button of the drawer (line 447).\<close>
definition zoomInButton :: "state \<Rightarrow> state" where
  "zoomInButton s = s\<lparr> zoom := min (zoom s * 1.2) 2 \<rparr>"

definition zoomOutButton :: "state \<Rightarrow> state" where
  "zoomOutButton s = s\<lparr> zoom := max (zoom s * 0.8) 0.5 \<rparr>"

definition resetButton :: "state \<Rightarrow> state" where
  "resetButton s = s\<lparr> zoom := 1, pan := (0, 0) \<rparr>"

definition closeButton :: "state \<Rightarrow> state" where
  "closeButton s = s\<lparr> selectedNode := None \<rparr>"

subsection \<open>Event sequences\<close>

datatype event =
    MouseMove real real
  | MouseDown real real
  | MouseUp
  | MouseLeave
  | Click real real
  | Wheel real
  | ZoomIn
  | ZoomOut
  | Reset
  | CloseDrawer

text \<open>
  The handler the canvas element or button is wired to (lines 348-353); \<open>canvas\<close> is what
  \<open>canvasRef.current\<close> and its bounding rectangle are when the event arrives.
\<close>
fun handle :: "DOMRect option \<Rightarrow> state \<Rightarrow> event \<Rightarrow> state" where
  "handle canvas s (MouseMove clientX clientY) = handleMouseMove canvas s clientX clientY"
| "handle canvas s (MouseDown clientX clientY) = handleMouseDown canvas s clientX clientY"
| "handle canvas s MouseUp = handleMouseUp s"
| "handle canvas s MouseLeave = handleMouseUp s"
| "handle canvas s (Click clientX clientY) = handleClick canvas s clientX clientY"
| "handle canvas s (Wheel deltaY) = handleWheel s deltaY"
| "handle canvas s ZoomIn = zoomInButton s"
| "handle canvas s ZoomOut = zoomOutButton s"
| "handle canvas s Reset = resetButton s"
| "handle canvas s CloseDrawer = closeButton s"

text \<open>The events of a session in order, each rendered before the next one arrives.\<close>
fun run :: "state \<Rightarrow> (DOMRect option \<times> event) list \<Rightarrow> state" where
  "run s [] = s"
| "run s ((canvas, ev) # rest) = run (handle canvas s ev) rest"

text \<open>
  A sequence of events in which a button goes down only while none is held: \<open>held\<close> says
  whether a pointer-down has occurred with no pointer-up or pointer-leave after it.
\<close>
fun gestures :: "bool \<Rightarrow> (DOMRect option \<times> event) list \<Rightarrow> bool" where
  "gestures held [] = True"
| "gestures held ((canvas, MouseDown clientX clientY) # rest) = (\<not> held \<and> gestures True rest)"
| "gestures held ((canvas, MouseUp) # rest) = gestures False rest"
| "gestures held ((canvas, MouseLeave) # rest) = gestures False rest"
| "gestures held ((canvas, ev) # rest) = gestures held rest"

subsection \<open>Invariant of the position store\<close>

text \<open>
  Every key of \<open>nodePositions\<close>, and the node being dragged, is the id of a node of the model.
\<close>
definition positions_ok :: "state \<Rightarrow> bool" where
  "positions_ok s \<longleftrightarrow>
     dom (nodePositions s) \<subseteq> n_id ` set (nodes (graphData s)) \<and>
     (\<forall>a. draggingNode s = Some a \<longrightarrow> a \<in> n_id ` set (nodes (graphData s)))"

subsection \<open>Concrete inputs\<close>

text \<open>A canvas whose top left corner is the client origin.\<close>
definition canvas0 :: "DOMRect option" where
  "canvas0 = Some \<lparr> rect_left = 0, rect_top = 0 \<rparr>"

definition danglingGraph :: GraphDataIn where
  "danglingGraph =
     \<lparr> gd_nodes = [\<lparr> nd_id = ''a'', nd_label = ''Alice'', nd_type = ''person'', nd_attributes = None \<rparr>],
       gd_edges = [\<lparr> ed_from = ''a'', ed_to = ''ghost'', ed_title = None \<rparr>] \<rparr>"

definition danglingData :: ScanResult where
  "danglingData = \<lparr> graph_data = Some danglingGraph \<rparr>"

definition duplicateGraph :: GraphDataIn where
  "duplicateGraph =
     \<lparr> gd_nodes = [\<lparr> nd_id = ''a'', nd_label = ''first'', nd_type = ''person'', nd_attributes = None \<rparr>,
                   \<lparr> nd_id = ''a'', nd_label = ''second'', nd_type = ''email'', nd_attributes = None \<rparr>],
       gd_edges = [] \<rparr>"

definition duplicateData :: ScanResult where
  "duplicateData = \<lparr> graph_data = Some duplicateGraph \<rparr>"

definition hitNode :: GraphNode where
  "hitNode = \<lparr> n_id = ''n'', n_label = ''N'', n_type = ''identity'', n_x = 100, n_y = 100, n_details = [] \<rparr>"

definition hitState :: state where
  "hitState =
     \<lparr> zoom = 1, pan = (0, 0), isDragging = False, dragStart = (0, 0), hoveredNode = None,
       graphData = \<lparr> nodes = [hitNode], edges = [] \<rparr>,
       nodePositions = [''n'' \<mapsto> (100, 100)],
       draggingNode = None, selectedNode = None \<rparr>"

definition otherNode :: GraphNode where
  "otherNode = \<lparr> n_id = ''m'', n_label = ''M'', n_type = ''person'', n_x = 110, n_y = 100, n_details = [] \<rparr>"

definition overlapState :: state where
  "overlapState =
     hitState\<lparr> graphData := \<lparr> nodes = [hitNode, otherNode], edges = [] \<rparr>,
               nodePositions := [''n'' \<mapsto> (100, 100), ''m'' \<mapsto> (110, 100)] \<rparr>"

definition emptyIdGraph :: GraphDataIn where
  "emptyIdGraph =
     \<lparr> gd_nodes = [\<lparr> nd_id = '''', nd_label = ''anonymous'', nd_type = ''person'', nd_attributes = None \<rparr>],
       gd_edges = [] \<rparr>"

definition emptyIdData :: ScanResult where
  "emptyIdData = \<lparr> graph_data = Some emptyIdGraph \<rparr>"

definition threeGraph :: GraphDataIn where
  "threeGraph =
     \<lparr> gd_nodes = [\<lparr> nd_id = ''a'', nd_label = ''first'', nd_type = ''person'', nd_attributes = None \<rparr>,
                   \<lparr> nd_id = ''b'', nd_label = ''other'', nd_type = ''email'', nd_attributes = None \<rparr>,
                   \<lparr> nd_id = ''a'', nd_label = ''again'', nd_type = ''domain'', nd_attributes = None \<rparr>],
       gd_edges = [] \<rparr>"

definition threeData :: ScanResult where
  "threeData = \<lparr> graph_data = Some threeGraph \<rparr>"

text \<open>A canvas away from the client origin, and the synthetic states under zoom 2 and pan \<open>(30, 40)\<close>.\<close>
definition canvas1 :: DOMRect where
  "canvas1 = \<lparr> rect_left = 8, rect_top = 16 \<rparr>"

definition zoomedState :: state where
  "zoomedState = hitState\<lparr> zoom := 2, pan := (30, 40) \<rparr>"

definition zoomedOverlapState :: state where
  "zoomedOverlapState = overlapState\<lparr> zoom := 2, pan := (30, 40) \<rparr>"

section \<open>Properties\<close>

lemmas handler_defs =
  handleMouseMove_def handleMouseDown_def handleMouseUp_def handleClick_def handleWheel_def
  zoomInButton_def zoomOutButton_def resetButton_def closeButton_def

subsection \<open>The model builder\<close>

lemma pushNodes_eq:
  "pushNodes i xs acc = acc @ map (\<lambda>(j, nodeData). mkNode j nodeData) (enumerate i xs)"
  by (induction xs arbitrary: i acc) simp_all

lemma pushEdges_eq: "pushEdges xs acc = acc @ map mkEdge xs"
  by (induction xs arbitrary: acc) simp_all

lemma nodes_generateGraphData:
  "graph_data data = Some g \<Longrightarrow>
   nodes (generateGraphData data) = map (\<lambda>(j, nodeData). mkNode j nodeData) (enumerate 0 (gd_nodes g))"
  by (simp add: generateGraphData_def pushNodes_eq)

lemma edges_generateGraphData:
  "graph_data data = Some g \<Longrightarrow> edges (generateGraphData data) = map mkEdge (gd_edges g)"
  by (simp add: generateGraphData_def pushEdges_eq)

lemma length_nodes_generateGraphData:
  "graph_data data = Some g \<Longrightarrow> length (nodes (generateGraphData data)) = length (gd_nodes g)"
  by (simp add: nodes_generateGraphData)

lemma nth_nodes_generateGraphData:
  "graph_data data = Some g \<Longrightarrow> i < length (gd_nodes g) \<Longrightarrow>
   nodes (generateGraphData data) ! i = mkNode i (gd_nodes g ! i)"
  by (simp add: nodes_generateGraphData nth_enumerate_eq)

lemma ids_generateGraphData:
  "graph_data data = Some g \<Longrightarrow>
   map n_id (nodes (generateGraphData data)) = map nd_id (gd_nodes g)"
  by (rule nth_equalityI) (simp_all add: length_nodes_generateGraphData nth_nodes_generateGraphData mkNode_def)

subsection \<open>The position store after the first render\<close>

lemma dom_newMap: "dom (newMap kvs m) = dom m \<union> fst ` set kvs"
proof (induction kvs arbitrary: m)
  case Nil
  show ?case by simp
next
  case (Cons kv kvs)
  obtain k v where kv: "kv = (k, v)" by (cases kv)
  have "dom (newMap (kv # kvs) m) = dom (newMap kvs (m(k \<mapsto> v)))"
    by (simp add: kv)
  also have "\<dots> = dom (m(k \<mapsto> v)) \<union> fst ` set kvs"
    by (rule Cons.IH)
  also have "\<dots> = dom m \<union> fst ` set (kv # kvs)"
    by (simp add: kv)
  finally show ?case .
qed

lemma newMap_absent: "k \<notin> fst ` set kvs \<Longrightarrow> newMap kvs m k = m k"
  by (induction kvs arbitrary: m) auto

lemma newMap_last:
  "i < length kvs \<Longrightarrow> \<forall>j. i < j \<and> j < length kvs \<longrightarrow> fst (kvs ! j) \<noteq> fst (kvs ! i) \<Longrightarrow>
   newMap kvs m (fst (kvs ! i)) = Some (snd (kvs ! i))"
proof (induction kvs arbitrary: i m)
  case Nil
  then show ?case by simp
next
  case (Cons kv kvs)
  obtain k v where kv: "kv = (k, v)" by (cases kv)
  show ?case
  proof (cases i)
    case 0
    have "k \<notin> fst ` set kvs"
    proof
      assume "k \<in> fst ` set kvs"
      then obtain j where "j < length kvs" "fst (kvs ! j) = k"
        by (metis imageE in_set_conv_nth)
      with Cons.prems(2) [rule_format, of "Suc j"] 0 kv show False by simp
    qed
    then show ?thesis
      by (simp add: 0 kv newMap_absent)
  next
    case (Suc i')
    have "newMap kvs (m(k \<mapsto> v)) (fst (kvs ! i')) = Some (snd (kvs ! i'))"
    proof (rule Cons.IH)
      show "i' < length kvs" using Cons.prems(1) Suc by simp
      show "\<forall>j. i' < j \<and> j < length kvs \<longrightarrow> fst (kvs ! j) \<noteq> fst (kvs ! i')"
        using Cons.prems(2) [rule_format, of "Suc j" for j] Suc by auto
    qed
    then show ?thesis by (simp add: Suc kv)
  qed
qed

lemma nodePositions_init_last:
  assumes "graph_data data = Some g" and "i < length (gd_nodes g)"
    and "\<forall>j. i < j \<and> j < length (gd_nodes g) \<longrightarrow> nd_id (gd_nodes g ! j) \<noteq> nd_id (gd_nodes g ! i)"
  shows "nodePositions (init data sel) (nd_id (gd_nodes g ! i)) =
         Some (400 + cos (real i * 0.5) * 150, 300 + sin (real i * 0.5) * 150)"
proof -
  let ?kvs = "map (\<lambda>n. (n_id n, (n_x n, n_y n))) (nodes (generateGraphData data))"
  have len: "length ?kvs = length (gd_nodes g)"
    by (simp add: length_nodes_generateGraphData [OF assms(1)])
  have nth: "?kvs ! j = (nd_id (gd_nodes g ! j),
      (400 + cos (real j * 0.5) * 150, 300 + sin (real j * 0.5) * 150))" if "j < length (gd_nodes g)" for j
    using that by (simp add: length_nodes_generateGraphData [OF assms(1)]
        nth_nodes_generateGraphData [OF assms(1)] mkNode_def)
  have "newMap ?kvs Map.empty (fst (?kvs ! i)) = Some (snd (?kvs ! i))"
  proof (rule newMap_last)
    show "i < length ?kvs" using assms(2) len by simp
    show "\<forall>j. i < j \<and> j < length ?kvs \<longrightarrow> fst (?kvs ! j) \<noteq> fst (?kvs ! i)"
      using assms(2,3) by (simp only: len nth) (simp add: nth)
  qed
  then show ?thesis
    by (simp only: nth [OF assms(2)] fst_conv snd_conv) (simp add: init_def)
qed

lemma last_occurrence:
  assumes "i < length xs"
  shows "\<exists>j. i \<le> j \<and> j < length xs \<and> xs ! j = xs ! i \<and> (\<forall>k. j < k \<and> k < length xs \<longrightarrow> xs ! k \<noteq> xs ! i)"
proof -
  let ?P = "\<lambda>j. j < length xs \<and> xs ! j = xs ! i"
  have Pi: "?P i" using assms by simp
  have bound: "\<And>y. ?P y \<Longrightarrow> y \<le> length xs" by simp
  have g: "?P (Greatest ?P)" using Pi bound by (rule GreatestI_nat)
  have le: "k \<le> Greatest ?P" if "?P k" for k using that bound by (rule Greatest_le_nat)
  have "\<forall>k. Greatest ?P < k \<and> k < length xs \<longrightarrow> xs ! k \<noteq> xs ! i"
    using le by (meson not_less)
  with g le [OF Pi] show ?thesis by blast
qed

lemma nodePositions_init_stored:
  assumes "graph_data data = Some g" and "j < length (gd_nodes g)"
    and "\<forall>k. j < k \<and> k < length (gd_nodes g) \<longrightarrow> nd_id (gd_nodes g ! k) \<noteq> nd_id (gd_nodes g ! j)"
    and "nd_id (gd_nodes g ! j) = a"
  shows "nodePositions (init data sel) a =
         Some (400 + cos (real j * 0.5) * 150, 300 + sin (real j * 0.5) * 150)"
  using nodePositions_init_last [OF assms(1-3)] assms(4) by simp

lemma nodePositions_init_ids:
  assumes "graph_data data = Some g"
  shows "nodePositions (init data sel) =
     newMap (map (\<lambda>(i, a). (a, (400 + cos (real i * 0.5) * 150, 300 + sin (real i * 0.5) * 150)))
               (enumerate 0 (map nd_id (gd_nodes g)))) Map.empty"
proof -
  have "map (\<lambda>n. (n_id n, (n_x n, n_y n))) (nodes (generateGraphData data)) =
        map (\<lambda>(i, a). (a, (400 + cos (real i * 0.5) * 150, 300 + sin (real i * 0.5) * 150)))
               (enumerate 0 (map nd_id (gd_nodes g)))"
    by (rule nth_equalityI)
       (simp_all add: length_nodes_generateGraphData [OF assms] nth_nodes_generateGraphData [OF assms]
          nth_enumerate_eq mkNode_def)
  then show ?thesis by (simp add: init_def)
qed

lemma dom_nodePositions_init:
  "graph_data data = Some g \<Longrightarrow> dom (nodePositions (init data sel)) = set (map nd_id (gd_nodes g))"
  using ids_generateGraphData [of data g]
  by (simp add: init_def dom_newMap image_image) (metis list.set_map)

subsection \<open>Hit-testing\<close>

lemma firstNodeAt_find: "firstNodeAt s p ns = List.find (inNode s p) ns"
  by (induction ns) simp_all

lemma firstNodeAt_Some: "firstNodeAt s p ns = Some n \<Longrightarrow> n \<in> set ns \<and> inNode s p n"
  by (induction ns) (auto split: if_splits)

lemma getNodeAtPosition_mem:
  "getNodeAtPosition canvas s cx cy = Some n \<Longrightarrow> n \<in> set (nodes (graphData s))"
  by (auto simp: getNodeAtPosition_def split: option.splits dest: firstNodeAt_Some)

lemma inNode_iff:
  "inNode s (wx, wy) node \<longleftrightarrow>
      (\<exists>pos r. nodePositions s (n_id node) = Some pos \<and> getNodeSize (n_type node) = Some r
         \<and> sqrt ((wx - fst pos)\<^sup>2 + (wy - snd pos)\<^sup>2) \<le> r)"
  by (auto simp: inNode_def split: option.splits)

lemma sqrt_le_iff_sq: "0 \<le> r \<Longrightarrow> sqrt d \<le> r \<longleftrightarrow> d \<le> r\<^sup>2"
  by (metis real_sqrt_le_iff real_sqrt_abs abs_of_nonneg)

lemma getNodeSize_person: "getNodeSize ''person'' = Some 60"
  by (simp add: getNodeSize_def nodeSizes_def)

lemma getNodeSize_identity: "getNodeSize ''identity'' = Some 20"
  by (simp add: getNodeSize_def nodeSizes_def)

lemmas hit_simps =
  getNodeAtPosition_def inNode_def screenToWorld_def getNodeSize_person getNodeSize_identity
  sqrt_le_iff_sq canvas0_def

subsection \<open>Invariants along a run\<close>

lemma graphData_handle [simp]: "graphData (handle canvas s ev) = graphData s"
  by (cases ev) (auto simp: handler_defs Let_def split: option.splits)

lemma graphData_run [simp]: "graphData (run s evs) = graphData s"
  by (induction evs arbitrary: s) auto

lemma positions_ok_init: "positions_ok (init data sel)"
  by (auto simp: positions_ok_def init_def dom_newMap)

lemma positions_ok_handle: "positions_ok s \<Longrightarrow> positions_ok (handle canvas s ev)"
  by (cases ev)
     (auto simp: positions_ok_def handler_defs Let_def truthy_def
        split: option.splits dest: getNodeAtPosition_mem)

lemma positions_ok_run: "positions_ok s \<Longrightarrow> positions_ok (run s evs)"
  by (induction evs arbitrary: s) (auto simp: positions_ok_handle)

lemma zoom_range_handle:
  "1 / 2 \<le> zoom s \<and> zoom s \<le> 2 \<Longrightarrow> 1 / 2 \<le> zoom (handle canvas s ev) \<and> zoom (handle canvas s ev) \<le> 2"
  by (cases ev) (auto simp: handler_defs Let_def split: option.splits)

lemma zoom_range_run:
  "1 / 2 \<le> zoom s \<and> zoom s \<le> 2 \<Longrightarrow> 1 / 2 \<le> zoom (run s evs) \<and> zoom (run s evs) \<le> 2"
proof (induction evs arbitrary: s)
  case Nil
  then show ?case by simp
next
  case (Cons e evs)
  obtain canvas ev where e: "e = (canvas, ev)" by (cases e)
  show ?case
    unfolding e run.simps by (rule Cons.IH) (rule zoom_range_handle [OF Cons.prems])
qed

lemma drag_flags_handle_other:
  "\<forall>x y. ev \<noteq> MouseDown x y \<Longrightarrow> ev \<noteq> MouseUp \<Longrightarrow> ev \<noteq> MouseLeave \<Longrightarrow>
   isDragging (handle canvas s ev) = isDragging s \<and> draggingNode (handle canvas s ev) = draggingNode s"
  by (cases ev) (auto simp: handler_defs Let_def split: option.splits)

lemma gestures_other:
  "\<forall>x y. ev \<noteq> MouseDown x y \<Longrightarrow> ev \<noteq> MouseUp \<Longrightarrow> ev \<noteq> MouseLeave \<Longrightarrow>
   gestures held ((canvas, ev) # rest) = gestures held rest"
  by (cases ev) auto

lemma gestures_exclusive:
  "gestures held evs \<Longrightarrow>
   (\<not> held \<longrightarrow> \<not> isDragging s \<and> draggingNode s = None) \<Longrightarrow>
   \<not> (isDragging s \<and> draggingNode s \<noteq> None) \<Longrightarrow>
   \<not> (isDragging (run s evs) \<and> draggingNode (run s evs) \<noteq> None)"
proof (induction evs arbitrary: held s)
  case Nil
  then show ?case by simp
next
  case (Cons e evs)
  obtain canvas ev where e: "e = (canvas, ev)" by (cases e)
  consider (down) x y where "ev = MouseDown x y" | (up) "ev = MouseUp \<or> ev = MouseLeave"
    | (other) "\<forall>x y. ev \<noteq> MouseDown x y" "ev \<noteq> MouseUp" "ev \<noteq> MouseLeave"
    by blast
  then show ?case
  proof cases
    case down
    from Cons.prems(1) have h: "\<not> held" and g: "gestures True evs"
      by (simp_all add: e down)
    from h Cons.prems(2) have idle: "\<not> isDragging s" "draggingNode s = None" by simp_all
    have "\<not> (isDragging (handle canvas s ev) \<and> draggingNode (handle canvas s ev) \<noteq> None)"
      using idle by (auto simp: down handleMouseDown_def split: option.splits)
    with Cons.IH [OF g, of "handle canvas s ev"] show ?thesis
      by (simp add: e)
  next
    case up
    then have g: "gestures False evs"
      using Cons.prems(1) by (auto simp: e)
    have "\<not> isDragging (handle canvas s ev) \<and> draggingNode (handle canvas s ev) = None"
      using up by (auto simp: handleMouseUp_def)
    with Cons.IH [OF g, of "handle canvas s ev"] show ?thesis
      by (simp add: e)
  next
    case other
    have g: "gestures held evs"
      using Cons.prems(1) gestures_other [OF other] by (simp add: e)
    from drag_flags_handle_other [OF other, of canvas s] Cons.prems(2,3)
    have "\<not> held \<longrightarrow> \<not> isDragging (handle canvas s ev) \<and> draggingNode (handle canvas s ev) = None"
      and "\<not> (isDragging (handle canvas s ev) \<and> draggingNode (handle canvas s ev) \<noteq> None)"
      by simp_all
    with Cons.IH [OF g, of "handle canvas s ev"] show ?thesis
      by (simp add: e)
  qed
qed

lemma clickedId_nonempty: "clickedId node \<noteq> Some []"
  by (simp add: clickedId_def split: option.splits)

lemma selected_nonempty_handle:
  "selectedNode s \<noteq> Some [] \<Longrightarrow> selectedNode (handle canvas s ev) \<noteq> Some []"
  by (cases ev) (auto simp: handler_defs Let_def clickedId_nonempty split: option.splits)

lemma selected_nonempty_run:
  "selectedNode s \<noteq> Some [] \<Longrightarrow> selectedNode (run s evs) \<noteq> Some []"
proof (induction evs arbitrary: s)
  case Nil
  then show ?case by simp
next
  case (Cons e evs)
  obtain canvas ev where e: "e = (canvas, ev)" by (cases e)
  show ?case
    unfolding e run.simps by (rule Cons.IH) (rule selected_nonempty_handle [OF Cons.prems])
qed

subsection \<open>Renderer\<close>

lemma dprOf_nonzero: "dprOf r \<noteq> 0"
  by (simp add: dprOf_def)

lemma drawEdge_dangling:
  assumes "positions_ok s"
    and "e_source e \<notin> n_id ` set (nodes (graphData s)) \<or> e_target e \<notin> n_id ` set (nodes (graphData s))"
  shows "drawEdge s e = []"
proof -
  from assms have "nodePositions s (e_source e) = None \<or> nodePositions s (e_target e) = None"
    unfolding positions_ok_def by (metis domIff subsetD)
  then show ?thesis
    by (auto simp: drawEdge_def split: option.splits)
qed

lemma concat_map_filter_empty:
  assumes "\<And>e. \<not> P e \<Longrightarrow> f e = []"
  shows "concat (map f (filter P xs)) = concat (map f xs)"
  using assms by (induction xs) auto

subsection \<open>The first render of the concrete inputs\<close>

lemma init_danglingData:
  "init danglingData sel =
     \<lparr> zoom = 1, pan = (0, 0), isDragging = False, dragStart = (0, 0), hoveredNode = None,
       graphData = \<lparr> nodes = [\<lparr> n_id = ''a'', n_label = ''Alice'', n_type = ''person'',
                                n_x = 550, n_y = 300, n_details = [] \<rparr>],
                     edges = [\<lparr> e_source = ''a'', e_target = ''ghost'', e_relationship = ''connected'' \<rparr>] \<rparr>,
       nodePositions = [''a'' \<mapsto> (550, 300)],
       draggingNode = None, selectedNode = sel \<rparr>"
  by (simp add: init_def generateGraphData_def danglingData_def danglingGraph_def mkNode_def mkEdge_def)

lemma init_emptyIdData:
  "init emptyIdData sel =
     \<lparr> zoom = 1, pan = (0, 0), isDragging = False, dragStart = (0, 0), hoveredNode = None,
       graphData = \<lparr> nodes = [\<lparr> n_id = '''', n_label = ''anonymous'', n_type = ''person'',
                                n_x = 550, n_y = 300, n_details = [] \<rparr>],
                     edges = [] \<rparr>,
       nodePositions = ['''' \<mapsto> (550, 300)],
       draggingNode = None, selectedNode = sel \<rparr>"
  by (simp add: init_def generateGraphData_def emptyIdData_def emptyIdGraph_def mkNode_def)

section \<open>The claims of the specification\<close>

subsection \<open>Edge sanitation\<close>

text \<open>
  C1, as stated, fails: \<open>generateGraphData\<close> copies every edge record, so an edge whose
  target is the id of no node is an element of the built model's edge list.
\<close>
theorem dangling_edge_in_model_counterexample:
  "\<lparr> e_source = ''a'', e_target = ''ghost'', e_relationship = ''connected'' \<rparr>
     \<in> set (edges (generateGraphData danglingData))
   \<and> ''ghost'' \<notin> set (map nd_id (gd_nodes danglingGraph))"
  by (simp add: generateGraphData_def danglingData_def danglingGraph_def mkEdge_def)

text \<open>
  C1, amended. In every state reached from the first render by any events, the model's
  edge list is the whole input edge list, dangling edges included; \<open>draw\<close> emits nothing
  for an edge whose source or target is the id of no input node; and what \<open>draw\<close> puts
  on the canvas is what it puts there for the model without those edges. \<open>draw\<close> is a
  total function: no input makes it fail.
\<close>
theorem dangling_edge_never_drawn:
  assumes "graph_data data = Some g" and "s = run (init data sel) evs"
  shows "edges (graphData s) = map mkEdge (gd_edges g)
       \<and> (\<forall>e. e_source e \<notin> set (map nd_id (gd_nodes g)) \<or> e_target e \<notin> set (map nd_id (gd_nodes g))
             \<longrightarrow> drawEdge s e = [])
       \<and> draw canvas s =
           draw canvas (s\<lparr> graphData := (graphData s)\<lparr> edges :=
             filter (\<lambda>e. e_source e \<in> set (map nd_id (gd_nodes g)) \<and> e_target e \<in> set (map nd_id (gd_nodes g)))
               (edges (graphData s)) \<rparr> \<rparr>)"
proof -
  have gd: "graphData s = generateGraphData data"
    by (simp add: assms(2) init_def)
  have ids: "n_id ` set (nodes (graphData s)) = set (map nd_id (gd_nodes g))"
    using ids_generateGraphData [OF assms(1)] by (metis gd set_map)
  have ok: "positions_ok s"
    unfolding assms(2) by (rule positions_ok_run) (rule positions_ok_init)
  have dangling: "drawEdge s e = []"
    if "e_source e \<notin> set (map nd_id (gd_nodes g)) \<or> e_target e \<notin> set (map nd_id (gd_nodes g))" for e
    using drawEdge_dangling [OF ok] that unfolding ids by blast
  have same: "drawEdge (s\<lparr> graphData := G \<rparr>) = drawEdge s" "drawNode (s\<lparr> graphData := G \<rparr>) = drawNode s" for G
    by (auto simp: drawEdge_def drawNode_def fun_eq_iff split: option.splits)
  have "edges (graphData s) = map mkEdge (gd_edges g)"
    by (simp add: gd edges_generateGraphData [OF assms(1)])
  moreover have "draw canvas s =
           draw canvas (s\<lparr> graphData := (graphData s)\<lparr> edges :=
             filter (\<lambda>e. e_source e \<in> set (map nd_id (gd_nodes g)) \<and> e_target e \<in> set (map nd_id (gd_nodes g)))
               (edges (graphData s)) \<rparr> \<rparr>)"
  proof (cases canvas)
    case None
    then show ?thesis by (simp add: draw_def)
  next
    case (Some rect)
    have "concat (map (drawEdge s)
            (filter (\<lambda>e. e_source e \<in> set (map nd_id (gd_nodes g)) \<and> e_target e \<in> set (map nd_id (gd_nodes g)))
               (edges (graphData s))))
          = concat (map (drawEdge s) (edges (graphData s)))"
      by (rule concat_map_filter_empty) (use dangling in blast)
    then show ?thesis
      by (simp add: draw_def Some same)
  qed
  ultimately show ?thesis
    using dangling by blast
qed

theorem dangling_edge_never_drawn_witness:
  "graph_data danglingData = Some danglingGraph
   \<and> edges (graphData (run (init danglingData None) [(canvas0, MouseDown 550 300), (canvas0, MouseMove 10 10)]))
       = [\<lparr> e_source = ''a'', e_target = ''ghost'', e_relationship = ''connected'' \<rparr>]
   \<and> drawEdge (run (init danglingData None) [(canvas0, MouseDown 550 300), (canvas0, MouseMove 10 10)])
         \<lparr> e_source = ''a'', e_target = ''ghost'', e_relationship = ''connected'' \<rparr> = []"
proof -
  have g: "graph_data danglingData = Some danglingGraph"
    by (simp add: danglingData_def)
  note t = dangling_edge_never_drawn [OF g refl, of None "[(canvas0, MouseDown 550 300), (canvas0, MouseMove 10 10)]" canvas0]
  have ghost: "e_target \<lparr> e_source = ''a'', e_target = ''ghost'', e_relationship = ''connected'' \<rparr>
      \<notin> set (map nd_id (gd_nodes danglingGraph))"
    by (simp add: danglingGraph_def)
  have "map mkEdge (gd_edges danglingGraph) = [\<lparr> e_source = ''a'', e_target = ''ghost'', e_relationship = ''connected'' \<rparr>]"
    by (simp add: danglingGraph_def mkEdge_def)
  moreover from t have "edges (graphData (run (init danglingData None) [(canvas0, MouseDown 550 300), (canvas0, MouseMove 10 10)]))
      = map mkEdge (gd_edges danglingGraph)"
    by (rule conjunct1)
  moreover from t ghost have "drawEdge (run (init danglingData None) [(canvas0, MouseDown 550 300), (canvas0, MouseMove 10 10)])
         \<lparr> e_source = ''a'', e_target = ''ghost'', e_relationship = ''connected'' \<rparr> = []"
    by blast
  ultimately show ?thesis
    using g by (simp only: simp_thms)
qed

subsection \<open>Initial layout\<close>

text \<open>
  C2, as stated, fails: the position a node starts at is the one stored under its id, and
  when a later record has the same id the store holds the position computed for that later
  index. With two records of id \<open>a\<close> the node at index 0 starts at the position of index 1.
\<close>
theorem stored_position_not_of_own_index_counterexample:
  "nodePositions (init duplicateData None) (nd_id (gd_nodes duplicateGraph ! 0))
     \<noteq> Some (400 + cos (real (0::nat) * 0.5) * 150, 300 + sin (real (0::nat) * 0.5) * 150)"
proof -
  have g: "graph_data duplicateData = Some duplicateGraph"
    by (simp add: duplicateData_def)
  have "nodePositions (init duplicateData None) ''a'' =
      Some (400 + cos (real (1::nat) * 0.5) * 150, 300 + sin (real (1::nat) * 0.5) * 150)"
    by (rule nodePositions_init_stored [OF g]) (simp_all add: duplicateGraph_def)
  moreover have "0 < sin (1 / 2 :: real)"
    by (rule sin_gt_zero_02) simp_all
  ultimately show ?thesis
    by (simp add: duplicateGraph_def)
qed

text \<open>
  C2, amended. The node built from the record at index \<open>i\<close> has the seed coordinates
  \<open>(400 + cos (i * 0.5) * 150, 300 + sin (i * 0.5) * 150)\<close>, whatever the record holds.
  The position stored for its id after the first render is that formula at the last index
  \<open>j\<close> whose record has the same id: it is the formula at \<open>i\<close> itself whenever no
  later record shares the id, as with distinct ids. The store is a function of the list of
  ids alone, so two builds from the same node list give the same positions.
\<close>
theorem initial_position_formula:
  assumes "graph_data data = Some g" and "i < length (gd_nodes g)"
  shows "n_x (nodes (generateGraphData data) ! i) = 400 + cos (real i * 0.5) * 150
       \<and> n_y (nodes (generateGraphData data) ! i) = 300 + sin (real i * 0.5) * 150
       \<and> (\<exists>j. i \<le> j \<and> j < length (gd_nodes g)
             \<and> nd_id (gd_nodes g ! j) = nd_id (gd_nodes g ! i)
             \<and> (\<forall>k. j < k \<and> k < length (gd_nodes g) \<longrightarrow> nd_id (gd_nodes g ! k) \<noteq> nd_id (gd_nodes g ! i))
             \<and> nodePositions (init data sel) (nd_id (gd_nodes g ! i)) =
                 Some (400 + cos (real j * 0.5) * 150, 300 + sin (real j * 0.5) * 150))
       \<and> ((\<forall>k. i < k \<and> k < length (gd_nodes g) \<longrightarrow> nd_id (gd_nodes g ! k) \<noteq> nd_id (gd_nodes g ! i)) \<longrightarrow>
            nodePositions (init data sel) (nd_id (gd_nodes g ! i)) =
              Some (400 + cos (real i * 0.5) * 150, 300 + sin (real i * 0.5) * 150))
       \<and> (\<forall>data' g' sel'. graph_data data' = Some g' \<and> map nd_id (gd_nodes g') = map nd_id (gd_nodes g) \<longrightarrow>
            nodePositions (init data' sel') = nodePositions (init data sel))"
proof -
  have fields: "n_x (nodes (generateGraphData data) ! i) = 400 + cos (real i * 0.5) * 150"
    "n_y (nodes (generateGraphData data) ! i) = 300 + sin (real i * 0.5) * 150"
    by (simp_all add: nth_nodes_generateGraphData [OF assms] mkNode_def)
  from last_occurrence [of i "map nd_id (gd_nodes g)"] assms(2)
  obtain j where j: "i \<le> j" "j < length (gd_nodes g)" "nd_id (gd_nodes g ! j) = nd_id (gd_nodes g ! i)"
    "\<forall>k. j < k \<and> k < length (gd_nodes g) \<longrightarrow> nd_id (gd_nodes g ! k) \<noteq> nd_id (gd_nodes g ! i)"
    by auto
  have "nodePositions (init data sel) (nd_id (gd_nodes g ! i)) =
                 Some (400 + cos (real j * 0.5) * 150, 300 + sin (real j * 0.5) * 150)"
    by (rule nodePositions_init_stored [OF assms(1) j(2) _ j(3)]) (simp add: j(3,4))
  with j have stored: "\<exists>j. i \<le> j \<and> j < length (gd_nodes g)
             \<and> nd_id (gd_nodes g ! j) = nd_id (gd_nodes g ! i)
             \<and> (\<forall>k. j < k \<and> k < length (gd_nodes g) \<longrightarrow> nd_id (gd_nodes g ! k) \<noteq> nd_id (gd_nodes g ! i))
             \<and> nodePositions (init data sel) (nd_id (gd_nodes g ! i)) =
                 Some (400 + cos (real j * 0.5) * 150, 300 + sin (real j * 0.5) * 150)"
    by blast
  have own: "nodePositions (init data sel) (nd_id (gd_nodes g ! i)) =
              Some (400 + cos (real i * 0.5) * 150, 300 + sin (real i * 0.5) * 150)"
    if "\<forall>k. i < k \<and> k < length (gd_nodes g) \<longrightarrow> nd_id (gd_nodes g ! k) \<noteq> nd_id (gd_nodes g ! i)"
    by (rule nodePositions_init_last [OF assms that])
  have same: "nodePositions (init data' sel') = nodePositions (init data sel)"
    if "graph_data data' = Some g' \<and> map nd_id (gd_nodes g') = map nd_id (gd_nodes g)" for data' g' sel'
    using that by (simp add: nodePositions_init_ids [of data' g'] nodePositions_init_ids [OF assms(1)])
  show ?thesis
    using fields stored own same by blast
qed

theorem initial_position_formula_witness:
  "graph_data threeData = Some threeGraph
   \<and> 0 < length (gd_nodes threeGraph) \<and> 1 < length (gd_nodes threeGraph)
   \<and> n_x (nodes (generateGraphData threeData) ! 1) = 400 + cos (1 / 2) * 150
   \<and> n_y (nodes (generateGraphData threeData) ! 1) = 300 + sin (1 / 2) * 150
   \<and> nodePositions (init threeData None) ''b'' = Some (400 + cos (1 / 2) * 150, 300 + sin (1 / 2) * 150)
   \<and> n_x (nodes (generateGraphData threeData) ! 0) = 550
   \<and> nodePositions (init threeData None) ''a'' = Some (400 + cos 1 * 150, 300 + sin 1 * 150)"
proof -
  have g: "graph_data threeData = Some threeGraph"
    by (simp add: threeData_def)
  have len: "length (gd_nodes threeGraph) = 3"
    by (simp add: threeGraph_def)
  have l0: "0 < length (gd_nodes threeGraph)" and l1: "1 < length (gd_nodes threeGraph)"
    by (simp_all add: len)
  have nolater: "\<forall>k. 1 < k \<and> k < length (gd_nodes threeGraph) \<longrightarrow>
      nd_id (gd_nodes threeGraph ! k) \<noteq> nd_id (gd_nodes threeGraph ! 1)"
  proof (intro allI impI)
    fix k assume "1 < k \<and> k < length (gd_nodes threeGraph)"
    then have "k = 2" by (simp add: len)
    then show "nd_id (gd_nodes threeGraph ! k) \<noteq> nd_id (gd_nodes threeGraph ! 1)"
      by (simp add: threeGraph_def)
  qed
  note t1 = initial_position_formula [OF g l1, of None]
  note t0 = initial_position_formula [OF g l0, of None]
  from t1 have f1: "n_x (nodes (generateGraphData threeData) ! 1) = 400 + cos (real 1 * 0.5) * 150"
    "n_y (nodes (generateGraphData threeData) ! 1) = 300 + sin (real 1 * 0.5) * 150"
    by blast+
  from t1 nolater have b: "nodePositions (init threeData None) (nd_id (gd_nodes threeGraph ! 1)) =
              Some (400 + cos (real 1 * 0.5) * 150, 300 + sin (real 1 * 0.5) * 150)"
    by blast
  from t0 have f0: "n_x (nodes (generateGraphData threeData) ! 0) = 400 + cos (real 0 * 0.5) * 150"
    by blast
  from t0 obtain j where j: "j < length (gd_nodes threeGraph)"
    "\<forall>k. j < k \<and> k < length (gd_nodes threeGraph) \<longrightarrow>
        nd_id (gd_nodes threeGraph ! k) \<noteq> nd_id (gd_nodes threeGraph ! 0)"
    "nodePositions (init threeData None) (nd_id (gd_nodes threeGraph ! 0)) =
        Some (400 + cos (real j * 0.5) * 150, 300 + sin (real j * 0.5) * 150)"
    by blast
  have "j = 2"
  proof (rule ccontr)
    assume "j \<noteq> 2"
    with j(1) have "j < 2 \<and> 2 < length (gd_nodes threeGraph)" by (simp add: len)
    with j(2) have "nd_id (gd_nodes threeGraph ! 2) \<noteq> nd_id (gd_nodes threeGraph ! 0)" by blast
    then show False by (simp add: threeGraph_def)
  qed
  with j(3) have a: "nodePositions (init threeData None) ''a'' = Some (400 + cos 1 * 150, 300 + sin 1 * 150)"
    by (simp add: threeGraph_def)
  show ?thesis
    using g l0 l1 f1 b f0 a by (simp add: threeGraph_def)
qed

subsection \<open>Viewport transform\<close>

text \<open>
  C3. A world point is drawn at \<open>w * zoom + pan\<close> relative to the corner of the canvas,
  and for a zoom other than 0 the screen-to-world mapping of hit-testing takes the screen
  point where a world point is drawn back to that world point, for every pan, every canvas
  position and every device pixel ratio.
\<close>
theorem transform_inverse:
  assumes "zoom s \<noteq> 0"
  shows "worldToScreen rect devicePixelRatio s (wx, wy) =
           (rect_left rect + (wx * zoom s + fst (pan s)), rect_top rect + (wy * zoom s + snd (pan s)))
       \<and> screenToWorld rect s (fst (worldToScreen rect devicePixelRatio s (wx, wy)))
           (snd (worldToScreen rect devicePixelRatio s (wx, wy))) = (wx, wy)"
proof -
  have w: "worldToScreen rect devicePixelRatio s (wx, wy) =
           (rect_left rect + (wx * zoom s + fst (pan s)), rect_top rect + (wy * zoom s + snd (pan s)))"
    using dprOf_nonzero [of devicePixelRatio]
    by (simp add: worldToScreen_def drawMatrix_def identityMatrix_def field_simps)
  show ?thesis
    using assms by (simp add: w screenToWorld_def)
qed

theorem transform_inverse_witness:
  "zoom (hitState\<lparr> zoom := 2, pan := (30, 40) \<rparr>) \<noteq> 0
   \<and> worldToScreen \<lparr> rect_left = 8, rect_top = 16 \<rparr> 2 (hitState\<lparr> zoom := 2, pan := (30, 40) \<rparr>) (100, 100)
       = (238, 256)
   \<and> screenToWorld \<lparr> rect_left = 8, rect_top = 16 \<rparr> (hitState\<lparr> zoom := 2, pan := (30, 40) \<rparr>) 238 256
       = (100, 100)"
proof -
  have z: "zoom (hitState\<lparr> zoom := 2, pan := (30, 40) \<rparr>) \<noteq> 0" by simp
  from transform_inverse [OF z, of "\<lparr> rect_left = 8, rect_top = 16 \<rparr>" 2 100 100] show ?thesis
    by auto
qed

subsection \<open>Zoom clamp\<close>

text \<open>
  C4. The zoom starts at 1, and after every finite sequence of events (wheel steps, the
  zoom-in, zoom-out and reset buttons, and the pointer events, which leave it alone) it
  lies in the closed interval from 0.5 to 2.
\<close>
theorem zoom_clamped:
  "zoom (init data sel) = 1
   \<and> 0.5 \<le> zoom (run (init data sel) evs) \<and> zoom (run (init data sel) evs) \<le> 2"
  using zoom_range_run [of "init data sel" evs] by (simp add: init_def)

theorem zoom_clamped_witness:
  "zoom (run (init danglingData None)
      [(canvas0, ZoomIn), (canvas0, ZoomIn), (canvas0, ZoomIn), (canvas0, ZoomIn), (canvas0, Wheel (- 1))]) = 2
   \<and> zoom (run (init danglingData None)
      [(canvas0, ZoomOut), (canvas0, ZoomOut), (canvas0, ZoomOut), (canvas0, ZoomOut), (canvas0, Wheel 1)]) = 0.5"
  using zoom_clamped [of danglingData None
      "[(canvas0, ZoomIn), (canvas0, ZoomIn), (canvas0, ZoomIn), (canvas0, ZoomIn), (canvas0, Wheel (- 1))]"]
    zoom_clamped [of danglingData None
      "[(canvas0, ZoomOut), (canvas0, ZoomOut), (canvas0, ZoomOut), (canvas0, ZoomOut), (canvas0, Wheel 1)]"]
  by (simp add: init_def handler_defs)

subsection \<open>Hit-testing\<close>

text \<open>
  C5. \<open>getNodeAtPosition\<close> takes the pointer's client position to the world point
  \<open>((clientX - left - pan.x) / zoom, (clientY - top - pan.y) / zoom)\<close>, the inverse of the
  transform \<open>draw\<close> uses, and returns the first node, in the order of the node list, whose
  stored position lies within the radius that \<open>getNodeSize\<close> gives for the node's type of
  that world point; it returns nothing exactly when no node does. So a pointer placed where
  \<open>draw\<close> shows the world point \<open>w\<close> hits the first node that contains \<open>w\<close>. With zoom 1,
  pan \<open>(0, 0)\<close> and the canvas at the client origin, a node at \<open>(100, 100)\<close> of radius 20
  is hit at \<open>(105, 95)\<close> and not hit at \<open>(140, 140)\<close>; with zoom 2, pan \<open>(30, 40)\<close> and
  the canvas at \<open>(8, 16)\<close> the same world points lie under the pointer at \<open>(248, 246)\<close>
  and \<open>(318, 336)\<close>, and the pointer at \<open>(105, 95)\<close> no longer hits.
\<close>
theorem hit_test_first_in_list_order:
  "screenToWorld rect s clientX clientY =
      ((clientX - rect_left rect - fst (pan s)) / zoom s, (clientY - rect_top rect - snd (pan s)) / zoom s)
   \<and> (getNodeAtPosition (Some rect) s clientX clientY = Some node \<longleftrightarrow>
      (\<exists>i < length (nodes (graphData s)).
          nodes (graphData s) ! i = node
        \<and> inNode s ((clientX - rect_left rect - fst (pan s)) / zoom s,
                     (clientY - rect_top rect - snd (pan s)) / zoom s) node
        \<and> (\<forall>j < i. \<not> inNode s ((clientX - rect_left rect - fst (pan s)) / zoom s,
                                  (clientY - rect_top rect - snd (pan s)) / zoom s)
                         (nodes (graphData s) ! j))))
   \<and> (getNodeAtPosition (Some rect) s clientX clientY = None \<longleftrightarrow>
      (\<forall>n \<in> set (nodes (graphData s)).
          \<not> inNode s ((clientX - rect_left rect - fst (pan s)) / zoom s,
                       (clientY - rect_top rect - snd (pan s)) / zoom s) n))
   \<and> (inNode s (wx, wy) node \<longleftrightarrow>
      (\<exists>pos r. nodePositions s (n_id node) = Some pos \<and> getNodeSize (n_type node) = Some r
         \<and> sqrt ((wx - fst pos)\<^sup>2 + (wy - snd pos)\<^sup>2) \<le> r))
   \<and> (zoom s \<noteq> 0 \<longrightarrow>
        (getNodeAtPosition (Some rect) s
            (fst (worldToScreen rect devicePixelRatio s (wx, wy)))
            (snd (worldToScreen rect devicePixelRatio s (wx, wy))) = Some node \<longleftrightarrow>
         (\<exists>i < length (nodes (graphData s)).
             nodes (graphData s) ! i = node
           \<and> inNode s (wx, wy) node
           \<and> (\<forall>j < i. \<not> inNode s (wx, wy) (nodes (graphData s) ! j)))))
   \<and> zoom hitState = 1 \<and> pan hitState = (0, 0)
   \<and> nodes (graphData hitState) = [hitNode]
   \<and> nodePositions hitState (n_id hitNode) = Some (100, 100)
   \<and> getNodeSize (n_type hitNode) = Some 20
   \<and> getNodeAtPosition canvas0 hitState 105 95 = Some hitNode
   \<and> getNodeAtPosition canvas0 hitState 140 140 = None
   \<and> zoom zoomedState = 2 \<and> pan zoomedState = (30, 40)
   \<and> nodes (graphData zoomedState) = [hitNode]
   \<and> nodePositions zoomedState (n_id hitNode) = Some (100, 100)
   \<and> getNodeAtPosition (Some canvas1) zoomedState 248 246 = Some hitNode
   \<and> getNodeAtPosition (Some canvas1) zoomedState 318 336 = None
   \<and> getNodeAtPosition (Some canvas1) zoomedState 105 95 = None"
proof -
  let ?w = "((clientX - rect_left rect - fst (pan s)) / zoom s,
             (clientY - rect_top rect - snd (pan s)) / zoom s)"
  have world: "screenToWorld rect s clientX clientY = ?w"
    by (simp add: screenToWorld_def)
  have found: "getNodeAtPosition (Some rect) s x y
      = List.find (inNode s (screenToWorld rect s x y)) (nodes (graphData s))" for x y
    by (simp add: getNodeAtPosition_def firstNodeAt_find)
  have hit: "getNodeAtPosition (Some rect) s clientX clientY = Some node \<longleftrightarrow>
      (\<exists>i < length (nodes (graphData s)).
          nodes (graphData s) ! i = node \<and> inNode s ?w node
        \<and> (\<forall>j < i. \<not> inNode s ?w (nodes (graphData s) ! j)))"
    unfolding found world by (auto simp: find_Some_iff)
  have miss: "getNodeAtPosition (Some rect) s clientX clientY = None \<longleftrightarrow>
      (\<forall>n \<in> set (nodes (graphData s)). \<not> inNode s ?w n)"
    unfolding found world by (auto simp: find_None_iff)
  have drawn_hit: "getNodeAtPosition (Some rect) s
            (fst (worldToScreen rect devicePixelRatio s (wx, wy)))
            (snd (worldToScreen rect devicePixelRatio s (wx, wy))) = Some node \<longleftrightarrow>
         (\<exists>i < length (nodes (graphData s)).
             nodes (graphData s) ! i = node \<and> inNode s (wx, wy) node
           \<and> (\<forall>j < i. \<not> inNode s (wx, wy) (nodes (graphData s) ! j)))"
    if z: "zoom s \<noteq> 0"
  proof -
    have "worldToScreen rect devicePixelRatio s (wx, wy) =
           (rect_left rect + (wx * zoom s + fst (pan s)), rect_top rect + (wy * zoom s + snd (pan s)))"
      using dprOf_nonzero [of devicePixelRatio]
      by (simp add: worldToScreen_def drawMatrix_def identityMatrix_def field_simps)
    then have "screenToWorld rect s (fst (worldToScreen rect devicePixelRatio s (wx, wy)))
            (snd (worldToScreen rect devicePixelRatio s (wx, wy))) = (wx, wy)"
      using z by (simp add: screenToWorld_def)
    then show ?thesis
      unfolding found by (auto simp: find_Some_iff)
  qed
  have concrete:
    "getNodeAtPosition canvas0 hitState 105 95 = Some hitNode"
    "getNodeAtPosition canvas0 hitState 140 140 = None"
    by (simp_all add: hit_simps hitState_def hitNode_def power2_eq_square)
  have ex: "zoom hitState = 1" "pan hitState = (0, 0)" "nodes (graphData hitState) = [hitNode]"
    "nodePositions hitState (n_id hitNode) = Some (100, 100)" "getNodeSize (n_type hitNode) = Some 20"
    by (simp_all add: hitState_def hitNode_def getNodeSize_identity)
  have zoomed:
    "getNodeAtPosition (Some canvas1) zoomedState 248 246 = Some hitNode"
    "getNodeAtPosition (Some canvas1) zoomedState 318 336 = None"
    "getNodeAtPosition (Some canvas1) zoomedState 105 95 = None"
    by (simp_all add: hit_simps zoomedState_def canvas1_def hitState_def hitNode_def power2_eq_square)
  have zex: "zoom zoomedState = 2" "pan zoomedState = (30, 40)" "nodes (graphData zoomedState) = [hitNode]"
    "nodePositions zoomedState (n_id hitNode) = Some (100, 100)"
    by (simp_all add: zoomedState_def hitState_def hitNode_def)
  show ?thesis
    using drawn_hit by (intro conjI world hit miss inNode_iff concrete ex zoomed zex) blast
qed

theorem hit_test_first_in_list_order_witness:
  "zoom zoomedOverlapState \<noteq> 0
   \<and> inNode zoomedOverlapState ((248 - rect_left canvas1 - fst (pan zoomedOverlapState)) / zoom zoomedOverlapState,
                                 (246 - rect_top canvas1 - snd (pan zoomedOverlapState)) / zoom zoomedOverlapState) hitNode
   \<and> inNode zoomedOverlapState ((248 - rect_left canvas1 - fst (pan zoomedOverlapState)) / zoom zoomedOverlapState,
                                 (246 - rect_top canvas1 - snd (pan zoomedOverlapState)) / zoom zoomedOverlapState) otherNode
   \<and> getNodeAtPosition (Some canvas1) zoomedOverlapState 248 246 = Some hitNode
   \<and> worldToScreen canvas1 3 zoomedOverlapState (105, 95) = (248, 246)
   \<and> getNodeAtPosition (Some canvas1) zoomedOverlapState
        (fst (worldToScreen canvas1 3 zoomedOverlapState (105, 95)))
        (snd (worldToScreen canvas1 3 zoomedOverlapState (105, 95))) = Some hitNode"
proof -
  let ?w = "((248 - rect_left canvas1 - fst (pan zoomedOverlapState)) / zoom zoomedOverlapState,
             (246 - rect_top canvas1 - snd (pan zoomedOverlapState)) / zoom zoomedOverlapState)"
  have z: "zoom zoomedOverlapState \<noteq> 0"
    by (simp add: zoomedOverlapState_def)
  have w: "?w = (105, 95)"
    by (simp add: zoomedOverlapState_def canvas1_def overlapState_def hitState_def)
  have a: "inNode zoomedOverlapState (105, 95) hitNode" and b: "inNode zoomedOverlapState (105, 95) otherNode"
    by (simp_all add: inNode_def getNodeSize_person getNodeSize_identity sqrt_le_iff_sq
        zoomedOverlapState_def overlapState_def hitState_def hitNode_def otherNode_def power2_eq_square)
  have first: "\<exists>i < length (nodes (graphData zoomedOverlapState)).
          nodes (graphData zoomedOverlapState) ! i = hitNode
        \<and> inNode zoomedOverlapState (105, 95) hitNode
        \<and> (\<forall>j < i. \<not> inNode zoomedOverlapState (105, 95) (nodes (graphData zoomedOverlapState) ! j))"
    using a by (intro exI [of _ 0]) (simp add: zoomedOverlapState_def overlapState_def)
  note t = hit_test_first_in_list_order [of canvas1 zoomedOverlapState 248 246 hitNode 105 95 3]
  have direct: "getNodeAtPosition (Some canvas1) zoomedOverlapState 248 246 = Some hitNode"
    using t first unfolding w by blast
  have drawn_hit: "getNodeAtPosition (Some canvas1) zoomedOverlapState
        (fst (worldToScreen canvas1 3 zoomedOverlapState (105, 95)))
        (snd (worldToScreen canvas1 3 zoomedOverlapState (105, 95))) = Some hitNode"
    using t first z by blast
  have drawn: "worldToScreen canvas1 3 zoomedOverlapState (105, 95) = (248, 246)"
    by (simp add: worldToScreen_def drawMatrix_def identityMatrix_def dprOf_def
        zoomedOverlapState_def canvas1_def overlapState_def hitState_def)
  show ?thesis
    using z a b direct drawn_hit drawn unfolding w by blast
qed

subsection \<open>Duplicate ids and empty input\<close>

text \<open>
  C6, as stated, fails: two input records with the same id give two nodes of the model,
  the first with the data of the first record.
\<close>
theorem duplicate_ids_counterexample:
  "map n_id (nodes (generateGraphData duplicateData)) = [''a'', ''a'']
   \<and> map n_label (nodes (generateGraphData duplicateData)) = [''first'', ''second'']"
  by (simp add: generateGraphData_def duplicateData_def duplicateGraph_def mkNode_def)

text \<open>
  C6, amended. The model's node list has one node for every input record, in input order
  and with that record's data, so records that share an id all stay. The position store has
  exactly one entry for every id of the input, and its position is the one computed for the
  last record with that id. An empty node and edge list gives the empty graph and the
  empty position store.
\<close>
theorem duplicate_ids_last_position_wins:
  assumes "graph_data data = Some g"
  shows "length (nodes (generateGraphData data)) = length (gd_nodes g)
       \<and> (\<forall>i < length (gd_nodes g). nodes (generateGraphData data) ! i = mkNode i (gd_nodes g ! i))
       \<and> dom (nodePositions (init data sel)) = set (map nd_id (gd_nodes g))
       \<and> (\<forall>i < length (gd_nodes g).
            (\<forall>j. i < j \<and> j < length (gd_nodes g) \<longrightarrow> nd_id (gd_nodes g ! j) \<noteq> nd_id (gd_nodes g ! i)) \<longrightarrow>
            nodePositions (init data sel) (nd_id (gd_nodes g ! i)) =
              Some (n_x (mkNode i (gd_nodes g ! i)), n_y (mkNode i (gd_nodes g ! i))))
       \<and> (gd_nodes g = [] \<and> gd_edges g = [] \<longrightarrow>
            generateGraphData data = \<lparr> nodes = [], edges = [] \<rparr>
          \<and> nodePositions (init data sel) = Map.empty)"
proof -
  have "nodePositions (init data sel) (nd_id (gd_nodes g ! i)) =
              Some (n_x (mkNode i (gd_nodes g ! i)), n_y (mkNode i (gd_nodes g ! i)))"
    if "i < length (gd_nodes g)"
      "\<forall>j. i < j \<and> j < length (gd_nodes g) \<longrightarrow> nd_id (gd_nodes g ! j) \<noteq> nd_id (gd_nodes g ! i)" for i
    using nodePositions_init_last [OF assms that] by (simp add: mkNode_def)
  moreover have "generateGraphData data = \<lparr> nodes = [], edges = [] \<rparr> \<and> nodePositions (init data sel) = Map.empty"
    if "gd_nodes g = [] \<and> gd_edges g = []"
    using that assms by (simp add: generateGraphData_def init_def)
  ultimately show ?thesis
    using assms
    by (simp add: length_nodes_generateGraphData nth_nodes_generateGraphData dom_nodePositions_init)
qed

theorem duplicate_ids_last_position_wins_witness:
  "graph_data duplicateData = Some duplicateGraph
   \<and> length (nodes (generateGraphData duplicateData)) = 2
   \<and> nodePositions (init duplicateData None) ''a'' =
       Some (n_x (mkNode 1 (gd_nodes duplicateGraph ! 1)), n_y (mkNode 1 (gd_nodes duplicateGraph ! 1)))
   \<and> dom (nodePositions (init duplicateData None)) = {''a''}"
proof -
  have g: "graph_data duplicateData = Some duplicateGraph"
    by (simp add: duplicateData_def)
  note t = duplicate_ids_last_position_wins [OF g, of None]
  have "length (nodes (generateGraphData duplicateData)) = 2"
    using t by (simp add: duplicateGraph_def)
  moreover have "dom (nodePositions (init duplicateData None)) = {''a''}"
    using t by (simp add: duplicateGraph_def)
  moreover have "nodePositions (init duplicateData None) (nd_id (gd_nodes duplicateGraph ! 1)) =
       Some (n_x (mkNode 1 (gd_nodes duplicateGraph ! 1)), n_y (mkNode 1 (gd_nodes duplicateGraph ! 1)))"
  proof -
    have l: "1 < length (gd_nodes duplicateGraph)" by (simp add: duplicateGraph_def)
    have last: "\<forall>j. 1 < j \<and> j < length (gd_nodes duplicateGraph) \<longrightarrow>
        nd_id (gd_nodes duplicateGraph ! j) \<noteq> nd_id (gd_nodes duplicateGraph ! 1)"
      by (simp add: duplicateGraph_def)
    from t l last show ?thesis by blast
  qed
  moreover have "nd_id (gd_nodes duplicateGraph ! 1) = ''a''"
    by (simp add: duplicateGraph_def)
  ultimately show ?thesis
    using g by simp
qed

subsection \<open>Panning and dragging\<close>

text \<open>
  C7, as stated, fails: \<open>handleMouseDown\<close> sets one of the two flags and leaves the other
  as it is, so a pointer-down on empty space followed, with no pointer-up between, by a
  pointer-down on a node leaves the panning flag set and a dragging node recorded.
\<close>
theorem pan_and_drag_both_active_counterexample:
  "isDragging (run (init danglingData None) [(canvas0, MouseDown 0 0), (canvas0, MouseDown 550 300)])
   \<and> draggingNode (run (init danglingData None) [(canvas0, MouseDown 0 0), (canvas0, MouseDown 550 300)])
       = Some ''a''"
  by (simp add: init_danglingData handleMouseDown_def hit_simps power2_eq_square)

text \<open>
  C7, amended. In every state reached from the first render by a sequence of events in
  which no pointer-down arrives while a button is held (each pointer-down is the first one,
  or has a pointer-up or pointer-leave after the pointer-down before it), the panning flag
  and the dragging-node id are never both active. After a pointer-up or a pointer-leave,
  from any state whatever, both are cleared.
\<close>
theorem pan_and_drag_exclusive_per_gesture:
  "(gestures False evs \<longrightarrow>
      \<not> (isDragging (run (init data sel) evs) \<and> draggingNode (run (init data sel) evs) \<noteq> None))
   \<and> \<not> isDragging (handle canvas s MouseUp) \<and> draggingNode (handle canvas s MouseUp) = None
   \<and> \<not> isDragging (handle canvas s MouseLeave) \<and> draggingNode (handle canvas s MouseLeave) = None"
proof -
  have "\<not> (isDragging (run (init data sel) evs) \<and> draggingNode (run (init data sel) evs) \<noteq> None)"
    if "gestures False evs"
    by (rule gestures_exclusive [OF that]) (simp_all add: init_def)
  then show ?thesis
    by (simp add: handleMouseUp_def)
qed

theorem pan_and_drag_exclusive_per_gesture_witness:
  "gestures False [(canvas0, MouseDown 0 0), (canvas0, MouseMove 5 5), (canvas0, MouseUp),
                   (canvas0, MouseDown 550 300), (canvas0, MouseMove 500 300)]
   \<and> \<not> (isDragging (run (init danglingData None)
            [(canvas0, MouseDown 0 0), (canvas0, MouseMove 5 5), (canvas0, MouseUp),
             (canvas0, MouseDown 550 300), (canvas0, MouseMove 500 300)])
        \<and> draggingNode (run (init danglingData None)
            [(canvas0, MouseDown 0 0), (canvas0, MouseMove 5 5), (canvas0, MouseUp),
             (canvas0, MouseDown 550 300), (canvas0, MouseMove 500 300)]) \<noteq> None)"
proof -
  have g: "gestures False [(canvas0, MouseDown 0 0), (canvas0, MouseMove 5 5), (canvas0, MouseUp),
                   (canvas0, MouseDown 550 300), (canvas0, MouseMove 500 300)]"
    by simp
  from pan_and_drag_exclusive_per_gesture [of "[(canvas0, MouseDown 0 0), (canvas0, MouseMove 5 5), (canvas0, MouseUp),
                   (canvas0, MouseDown 550 300), (canvas0, MouseMove 500 300)]" danglingData None canvas0 "init danglingData None"] g
  show ?thesis by blast
qed

text \<open>
  Both flags are also set along a sequence in which the pointer stays where it is: a
  button goes down on a node, two wheel steps zoom the node away from under the pointer,
  and a second button goes down on what is now empty space.
\<close>
lemma pan_and_drag_both_active_after_wheel:
  "isDragging (run (init danglingData None)
      [(canvas0, MouseDown 550 300), (canvas0, Wheel (- 1)), (canvas0, Wheel (- 1)), (canvas0, MouseDown 550 300)])
   \<and> draggingNode (run (init danglingData None)
      [(canvas0, MouseDown 550 300), (canvas0, Wheel (- 1)), (canvas0, Wheel (- 1)), (canvas0, MouseDown 550 300)])
       = Some ''a''"
  by (simp add: init_danglingData handleMouseDown_def handleWheel_def hit_simps power2_eq_square)

subsection \<open>Frame of a node drag\<close>

text \<open>
  C8. The claim: a pointer-move while a node is being dragged sets that node's stored
  position to the world point under the pointer and changes no other position, nor the pan
  or zoom. The code breaks it for a node whose id is the empty string. A pointer-down on
  that node records it as the dragging node and starts no pan, as for any other node, but
  \<open>handleMouseMove\<close> tests \<open>draggingNode\<close> for truthiness (line 265), so the
  pointer-move to \<open>(10, 10)\<close> leaves the node at \<open>(550, 300)\<close>.
\<close>
theorem drag_empty_id_not_moved:
  "draggingNode (run (init emptyIdData None) [(canvas0, MouseDown 550 300)]) = Some ''''
   \<and> \<not> isDragging (run (init emptyIdData None) [(canvas0, MouseDown 550 300)])
   \<and> screenToWorld \<lparr> rect_left = 0, rect_top = 0 \<rparr> (run (init emptyIdData None) [(canvas0, MouseDown 550 300)]) 10 10
       = (10, 10)
   \<and> nodePositions (run (init emptyIdData None) [(canvas0, MouseDown 550 300), (canvas0, MouseMove 10 10)]) ''''
       = Some (550, 300)"
  by (simp add: init_emptyIdData handleMouseDown_def handleMouseMove_def truthy_def hit_simps power2_eq_square)

text \<open>
  In general a pointer-move never changes a stored position while the dragging node is the
  empty id, and for every other id the drag does what the claim says: it sets the position
  of the dragged id to the world point under the pointer and changes nothing else.
\<close>
lemma drag_empty_id_never_moves:
  assumes "draggingNode s = Some []"
  shows "nodePositions (handleMouseMove canvas s clientX clientY) = nodePositions s"
  using assms by (cases canvas) (simp_all add: handleMouseMove_def truthy_def)

lemma drag_moves_only_dragged_node:
  assumes "draggingNode s = Some a" and "a \<noteq> []"
  shows "handleMouseMove (Some rect) s clientX clientY =
           s\<lparr> nodePositions := (nodePositions s)(a \<mapsto> screenToWorld rect s clientX clientY) \<rparr>
       \<and> nodePositions (handleMouseMove (Some rect) s clientX clientY) a =
           Some (screenToWorld rect s clientX clientY)
       \<and> (\<forall>b. b \<noteq> a \<longrightarrow>
            nodePositions (handleMouseMove (Some rect) s clientX clientY) b = nodePositions s b)
       \<and> pan (handleMouseMove (Some rect) s clientX clientY) = pan s
       \<and> zoom (handleMouseMove (Some rect) s clientX clientY) = zoom s"
proof -
  have "truthy (draggingNode s)"
    using assms by (simp add: truthy_def)
  then have move: "handleMouseMove (Some rect) s clientX clientY =
           s\<lparr> nodePositions := (nodePositions s)(a \<mapsto> screenToWorld rect s clientX clientY) \<rparr>"
    using assms(1) by (simp add: handleMouseMove_def)
  show ?thesis
    unfolding move by simp
qed

lemma drag_moves_only_dragged_node_example:
  "draggingNode (overlapState\<lparr> draggingNode := Some ''n'' \<rparr>) = Some ''n'' \<and> ''n'' \<noteq> []
   \<and> nodePositions
        (handleMouseMove (Some \<lparr> rect_left = 0, rect_top = 0 \<rparr>) (overlapState\<lparr> draggingNode := Some ''n'' \<rparr>) 300 200)
        ''n'' = Some (300, 200)
   \<and> nodePositions
        (handleMouseMove (Some \<lparr> rect_left = 0, rect_top = 0 \<rparr>) (overlapState\<lparr> draggingNode := Some ''n'' \<rparr>) 300 200)
        ''m'' = Some (110, 100)"
proof -
  have d: "draggingNode (overlapState\<lparr> draggingNode := Some ''n'' \<rparr>) = Some ''n''" by simp
  have n: "''n'' \<noteq> []" by simp
  from drag_moves_only_dragged_node [OF d n, of "\<lparr> rect_left = 0, rect_top = 0 \<rparr>" 300 200]
  show ?thesis
    by (simp add: screenToWorld_def overlapState_def hitState_def)
qed

subsection \<open>Zero-length gestures\<close>

text \<open>
  C9, as stated, fails: \<open>handleWheel\<close> takes every \<open>deltaY\<close> that is not positive,
  0 included, for a zoom-in step, so a wheel event with \<open>deltaY = 0\<close> at zoom 1 sets the
  zoom to 1.1.
\<close>
theorem wheel_zero_delta_counterexample:
  "zoom (init danglingData None) = 1 \<and> zoom (handleWheel (init danglingData None) 0) = 11 / 10"
  by (simp add: init_def handleWheel_def)

text \<open>
  C9, amended. A wheel event with \<open>deltaY = 0\<close> multiplies the zoom by 1.1 and clamps it
  to the interval from 0.5 to 2: the zoom grows whenever it was below 2, and the state is
  unchanged only at zoom 2. Pan, node positions, hover, selection and the drag flags are
  unchanged. A pointer-move of zero displacement during a pan leaves the state unchanged.
\<close>
theorem wheel_zero_delta_zooms_in:
  "handleWheel s 0 = s\<lparr> zoom := min (max (zoom s * 1.1) 0.5) 2 \<rparr>
   \<and> pan (handleWheel s 0) = pan s
   \<and> nodePositions (handleWheel s 0) = nodePositions s
   \<and> hoveredNode (handleWheel s 0) = hoveredNode s
   \<and> selectedNode (handleWheel s 0) = selectedNode s
   \<and> isDragging (handleWheel s 0) = isDragging s
   \<and> draggingNode (handleWheel s 0) = draggingNode s
   \<and> (0.5 \<le> zoom s \<and> zoom s < 2 \<longrightarrow> zoom s < zoom (handleWheel s 0))
   \<and> (zoom s = 2 \<longrightarrow> handleWheel s 0 = s)
   \<and> (isDragging s \<and> \<not> truthy (draggingNode s) \<and> dragStart s = (clientX, clientY) \<longrightarrow>
        handleMouseMove canvas s clientX clientY = s)"
proof -
  have step: "handleWheel s 0 = s\<lparr> zoom := min (max (zoom s * 1.1) 0.5) 2 \<rparr>"
    by (simp add: handleWheel_def)
  have grows: "zoom s < zoom (handleWheel s 0)" if "0.5 \<le> zoom s \<and> zoom s < 2"
    using that unfolding step by auto
  have fixed: "handleWheel s 0 = s" if "zoom s = 2"
    using that unfolding step by simp
  have still: "handleMouseMove canvas s clientX clientY = s"
    if "isDragging s \<and> \<not> truthy (draggingNode s) \<and> dragStart s = (clientX, clientY)"
    using that by (cases canvas) (simp_all add: handleMouseMove_def)
  have frame: "pan (handleWheel s 0) = pan s" "nodePositions (handleWheel s 0) = nodePositions s"
    "hoveredNode (handleWheel s 0) = hoveredNode s" "selectedNode (handleWheel s 0) = selectedNode s"
    "isDragging (handleWheel s 0) = isDragging s" "draggingNode (handleWheel s 0) = draggingNode s"
    unfolding step by simp_all
  show ?thesis
    using step grows fixed still frame by blast
qed

theorem wheel_zero_delta_zooms_in_witness:
  "zoom (handleWheel (init danglingData None) 0) = 11 / 10
   \<and> handleWheel ((init danglingData None)\<lparr> zoom := 2 \<rparr>) 0 = (init danglingData None)\<lparr> zoom := 2 \<rparr>
   \<and> handleMouseMove canvas0
        ((init danglingData None)\<lparr> isDragging := True, dragStart := (7, 9) \<rparr>) 7 9
      = (init danglingData None)\<lparr> isDragging := True, dragStart := (7, 9) \<rparr>"
  using wheel_zero_delta_zooms_in [of "init danglingData None" 0 0 None]
    wheel_zero_delta_zooms_in [of "(init danglingData None)\<lparr> zoom := 2 \<rparr>" 0 0 None]
    wheel_zero_delta_zooms_in [of "(init danglingData None)\<lparr> isDragging := True, dragStart := (7, 9) \<rparr>" 7 9 canvas0]
  by (simp add: init_def truthy_def)

subsection \<open>Selection of a node with the empty id\<close>

text \<open>
  C10. A click reports the id of the hit node unless that id is the empty string, and
  \<open>null\<close> otherwise: when the node under the pointer has the empty id the host's
  selection becomes \<open>null\<close>. No click sets the selection to the empty string, and when
  the host's selection is not the empty string at the first render no sequence of events
  makes it so.
\<close>
theorem click_empty_id_reports_null:
  "selectedNode (handleClick canvas s clientX clientY) =
     (case getNodeAtPosition canvas s clientX clientY of
        None \<Rightarrow> None
      | Some node \<Rightarrow> if n_id node = [] then None else Some (n_id node))
   \<and> (getNodeAtPosition canvas s clientX clientY = Some node \<and> n_id node = [] \<longrightarrow>
        selectedNode (handleClick canvas s clientX clientY) = None)
   \<and> selectedNode (handleClick canvas s clientX clientY) \<noteq> Some []
   \<and> (sel \<noteq> Some [] \<longrightarrow> selectedNode (run (init data sel) evs) \<noteq> Some [])"
proof -
  have "selectedNode (run (init data sel) evs) \<noteq> Some []" if "sel \<noteq> Some []"
    by (rule selected_nonempty_run) (simp add: init_def that)
  then show ?thesis
    by (simp add: handleClick_def clickedId_def split: option.splits)
qed

theorem click_empty_id_reports_null_witness:
  "getNodeAtPosition canvas0 (init emptyIdData (Some ''x'')) 550 300 =
     Some \<lparr> n_id = '''', n_label = ''anonymous'', n_type = ''person'', n_x = 550, n_y = 300, n_details = [] \<rparr>
   \<and> selectedNode (handleClick canvas0 (init emptyIdData (Some ''x'')) 550 300) = None"
proof -
  have hit: "getNodeAtPosition canvas0 (init emptyIdData (Some ''x'')) 550 300 =
     Some \<lparr> n_id = '''', n_label = ''anonymous'', n_type = ''person'', n_x = 550, n_y = 300, n_details = [] \<rparr>"
    by (simp add: init_emptyIdData hit_simps)
  from click_empty_id_reports_null [of canvas0 "init emptyIdData (Some ''x'')" 550 300
      "\<lparr> n_id = '''', n_label = ''anonymous'', n_type = ''person'', n_x = 550, n_y = 300, n_details = [] \<rparr>"] hit
  show ?thesis by simp
qed

end
